theory Spec2Isabelle
  imports Complex_Main "HOL-Library.Sublist"
begin

section \<open>Values, recipes and exceptions\<close>

text \<open>
  The program (\<^verbatim>\<open>recipe_selector.py\<close>) reads its recipes with \<^verbatim>\<open>json.load\<close>, so a recipe
  is a Python \<^verbatim>\<open>dict\<close> whose values are whatever the JSON document holds. A dict is an
  association list in insertion order with distinct keys; \<open>map_of\<close> is the lookup.
  JSON numbers with a fraction (Python floats) are outside the model; strings are
  sequences of ASCII characters.
\<close>

datatype pyval =
    VNone
  | VBool bool
  | VInt int
  | VStr string
  | VList "pyval list"
  | VDict "(string \<times> pyval) list"

type_synonym recipe = "(string \<times> pyval) list"

datatype error =
    FileNotFoundError
  | NotADirectoryError
  | IsADirectoryError
  | PermissionError
  | JSONDecodeError
  | UnicodeDecodeError
  | ValueError
  | KeyError
  | TypeError
  | AttributeError
  | IndexError

text \<open>\<^verbatim>\<open>r[key]\<close> on a dict: \<^verbatim>\<open>KeyError\<close> when the key is absent.\<close>

definition getitem :: "recipe \<Rightarrow> string \<Rightarrow> error + pyval" where
  "getitem r key = (case map_of r key of None \<Rightarrow> Inl KeyError | Some v \<Rightarrow> Inr v)"

text \<open>
  \<^verbatim>\<open>str.lower()\<close> on ASCII text: the letters A..Z (codes 65..90) move up by 32 and every
  other ASCII character stays. Letters beyond ASCII, which \<^verbatim>\<open>str.lower()\<close> also folds, are
  not in the model.
\<close>

definition lower_char :: "char \<Rightarrow> char" where
  "lower_char c =
     (let n = (of_char c :: nat) in if 65 \<le> n \<and> n \<le> 90 then char_of (n + 32) else c)"

definition lower :: "string \<Rightarrow> string" where
  "lower s = map lower_char s"

section \<open>filter_recipes\<close>

text \<open>
  \<^verbatim>\<open>[r for r in filtered if cond(r)]\<close>: a new list of the elements whose condition is
  true, in order; the first condition that raises ends the comprehension with that
  exception.
\<close>

fun comprehension :: "('a \<Rightarrow> error + bool) \<Rightarrow> 'a list \<Rightarrow> error + 'a list" where
  "comprehension cond [] = Inr []"
| "comprehension cond (r # rs) =
     (case cond r of
        Inl e \<Rightarrow> Inl e
      | Inr b \<Rightarrow>
          (case comprehension cond rs of
             Inl e \<Rightarrow> Inl e
           | Inr kept \<Rightarrow> Inr (if b then r # kept else kept)))"

text \<open>
  The three conditions. \<^verbatim>\<open>r["cost"] == cost\<close> compares any value with a string and never
  raises; \<^verbatim>\<open>r["cuisine"].lower()\<close> raises \<^verbatim>\<open>AttributeError\<close> on a value that is not a
  string; \<^verbatim>\<open>r["cooking_time"] <= max_time\<close> compares integers (a bool counts as 0 or 1)
  and raises \<^verbatim>\<open>TypeError\<close> on anything else.
\<close>

definition cost_cond :: "string \<Rightarrow> recipe \<Rightarrow> error + bool" where
  "cost_cond cost r =
     (case getitem r ''cost'' of Inl e \<Rightarrow> Inl e | Inr v \<Rightarrow> Inr (v = VStr cost))"

definition cuisine_cond :: "string \<Rightarrow> recipe \<Rightarrow> error + bool" where
  "cuisine_cond cuisine r =
     (case getitem r ''cuisine'' of
        Inl e \<Rightarrow> Inl e
      | Inr v \<Rightarrow>
          (case v of
             VStr s \<Rightarrow> Inr (lower s = lower cuisine)
           | _ \<Rightarrow> Inl AttributeError))"

definition time_cond :: "int \<Rightarrow> recipe \<Rightarrow> error + bool" where
  "time_cond max_time r =
     (case getitem r ''cooking_time'' of
        Inl e \<Rightarrow> Inl e
      | Inr v \<Rightarrow>
          (case v of
             VInt n \<Rightarrow> Inr (n \<le> max_time)
           | VBool b \<Rightarrow> Inr ((if b then 1 else 0) \<le> max_time)
           | _ \<Rightarrow> Inl TypeError))"

text \<open>
  \<^verbatim>\<open>if cost:\<close>, \<^verbatim>\<open>if cuisine:\<close> and \<^verbatim>\<open>if max_time:\<close> test truthiness: \<^verbatim>\<open>None\<close>, the empty
  string and the integer 0 are all false.
\<close>

fun if_str :: "string option \<Rightarrow> (string \<Rightarrow> 'a \<Rightarrow> error + 'a) \<Rightarrow> 'a \<Rightarrow> error + 'a" where
  "if_str None body filtered = Inr filtered"
| "if_str (Some s) body filtered = (if s \<noteq> [] then body s filtered else Inr filtered)"

fun if_int :: "int option \<Rightarrow> (int \<Rightarrow> 'a \<Rightarrow> error + 'a) \<Rightarrow> 'a \<Rightarrow> error + 'a" where
  "if_int None body filtered = Inr filtered"
| "if_int (Some n) body filtered = (if n \<noteq> 0 then body n filtered else Inr filtered)"

definition filter_recipes ::
  "recipe list \<Rightarrow> string option \<Rightarrow> string option \<Rightarrow> int option \<Rightarrow> error + recipe list" where
  "filter_recipes recipes cost cuisine max_time =
     (case if_str cost (\<lambda>c. comprehension (cost_cond c)) recipes of
        Inl e \<Rightarrow> Inl e
      | Inr by_cost \<Rightarrow>
          (case if_str cuisine (\<lambda>c. comprehension (cuisine_cond c)) by_cost of
             Inl e \<Rightarrow> Inl e
           | Inr by_cuisine \<Rightarrow>
               if_int max_time (\<lambda>t. comprehension (time_cond t)) by_cuisine))"

text \<open>
  A recipe of the data model: its \<^verbatim>\<open>cost\<close> and \<^verbatim>\<open>cuisine\<close> are strings and its
  \<^verbatim>\<open>cooking_time\<close> is an integer. On such recipes no condition raises.
\<close>

definition is_str :: "pyval option \<Rightarrow> bool" where
  "is_str v = (case v of Some (VStr s) \<Rightarrow> True | _ \<Rightarrow> False)"

definition is_int :: "pyval option \<Rightarrow> bool" where
  "is_int v = (case v of Some (VInt n) \<Rightarrow> True | _ \<Rightarrow> False)"

definition well_formed :: "recipe \<Rightarrow> bool" where
  "well_formed r =
     (is_str (map_of r ''cost'') \<and> is_str (map_of r ''cuisine'')
      \<and> is_int (map_of r ''cooking_time''))"

text \<open>The predicates of the specification, on the fields of a recipe.\<close>

definition has_cost :: "string \<Rightarrow> recipe \<Rightarrow> bool" where
  "has_cost tier r = (map_of r ''cost'' = Some (VStr tier))"

definition has_cuisine :: "string \<Rightarrow> recipe \<Rightarrow> bool" where
  "has_cuisine name r =
     (case map_of r ''cuisine'' of Some (VStr s) \<Rightarrow> lower s = lower name | _ \<Rightarrow> False)"

definition within_time :: "int \<Rightarrow> recipe \<Rightarrow> bool" where
  "within_time threshold r =
     (case map_of r ''cooking_time'' of Some (VInt n) \<Rightarrow> n \<le> threshold | _ \<Rightarrow> False)"

text \<open>The budget levels that \<^verbatim>\<open>main\<close> offers (\<^verbatim>\<open>cost_options\<close>).\<close>

definition cost_tiers :: "string list" where
  "cost_tiers = [''$'', ''$$'', ''$$$'']"

text \<open>
  What \<^verbatim>\<open>filter_recipes\<close> is specified to keep: a recipe satisfying every supplied
  criterion, where a criterion that is \<^verbatim>\<open>None\<close>, empty or zero is skipped as the code
  skips it.
\<close>

fun str_criterion :: "(string \<Rightarrow> recipe \<Rightarrow> bool) \<Rightarrow> string option \<Rightarrow> recipe \<Rightarrow> bool" where
  "str_criterion P None r = True"
| "str_criterion P (Some s) r = (if s = [] then True else P s r)"

fun int_criterion :: "(int \<Rightarrow> recipe \<Rightarrow> bool) \<Rightarrow> int option \<Rightarrow> recipe \<Rightarrow> bool" where
  "int_criterion P None r = True"
| "int_criterion P (Some n) r = (if n = 0 then True else P n r)"

definition selected :: "string option \<Rightarrow> string option \<Rightarrow> int option \<Rightarrow> recipe \<Rightarrow> bool" where
  "selected cost cuisine max_time r =
     (str_criterion has_cost cost r \<and> str_criterion has_cuisine cuisine r
      \<and> int_criterion within_time max_time r)"

section \<open>filter_recipes on a store\<close>

text \<open>
  Python lists and dicts are objects, and \<^verbatim>\<open>filtered = recipes\<close> copies a reference. The
  store holds the list objects (each a list of references to recipes) and the recipe
  objects; a reference is an index into the store, and a new object is appended.
  \<^verbatim>\<open>filter_recipes\<close> only reads recipes and only creates lists.
\<close>

type_synonym ref = nat

record store =
  list_objs :: "ref list list"
  dict_objs :: "recipe list"

definition new_list :: "store \<Rightarrow> ref list \<Rightarrow> store \<times> ref" where
  "new_list h elems = (h\<lparr>list_objs := list_objs h @ [elems]\<rparr>, length (list_objs h))"

definition comprehension_h ::
  "(recipe \<Rightarrow> error + bool) \<Rightarrow> store \<Rightarrow> ref \<Rightarrow> store \<times> (error + ref)" where
  "comprehension_h cond h filtered =
     (case comprehension (\<lambda>a. cond (dict_objs h ! a)) (list_objs h ! filtered) of
        Inl e \<Rightarrow> (h, Inl e)
      | Inr kept \<Rightarrow> (case new_list h kept of (h', q) \<Rightarrow> (h', Inr q)))"

fun if_str_h ::
  "string option \<Rightarrow> (string \<Rightarrow> store \<Rightarrow> ref \<Rightarrow> store \<times> (error + ref)) \<Rightarrow>
   store \<Rightarrow> ref \<Rightarrow> store \<times> (error + ref)" where
  "if_str_h None body h filtered = (h, Inr filtered)"
| "if_str_h (Some s) body h filtered =
     (if s \<noteq> [] then body s h filtered else (h, Inr filtered))"

fun if_int_h ::
  "int option \<Rightarrow> (int \<Rightarrow> store \<Rightarrow> ref \<Rightarrow> store \<times> (error + ref)) \<Rightarrow>
   store \<Rightarrow> ref \<Rightarrow> store \<times> (error + ref)" where
  "if_int_h None body h filtered = (h, Inr filtered)"
| "if_int_h (Some n) body h filtered =
     (if n \<noteq> 0 then body n h filtered else (h, Inr filtered))"

definition filter_recipes_h ::
  "store \<Rightarrow> ref \<Rightarrow> string option \<Rightarrow> string option \<Rightarrow> int option \<Rightarrow>
   store \<times> (error + ref)" where
  "filter_recipes_h h recipes cost cuisine max_time =
     (case if_str_h cost (\<lambda>c. comprehension_h (cost_cond c)) h recipes of
        (h1, Inl e) \<Rightarrow> (h1, Inl e)
      | (h1, Inr by_cost) \<Rightarrow>
          (case if_str_h cuisine (\<lambda>c. comprehension_h (cuisine_cond c)) h1 by_cost of
             (h2, Inl e) \<Rightarrow> (h2, Inl e)
           | (h2, Inr by_cuisine) \<Rightarrow>
               if_int_h max_time (\<lambda>t. comprehension_h (time_cond t)) h2 by_cuisine))"

text \<open>
  One store extends another when the recipe objects are the same and every list
  object of the first is still there, unchanged, in the second.
\<close>

definition extends :: "store \<Rightarrow> store \<Rightarrow> bool" where
  "extends h h' = (dict_objs h' = dict_objs h \<and> prefix (list_objs h) (list_objs h'))"

text \<open>The recipes a list reference stands for.\<close>

definition contents :: "store \<Rightarrow> ref \<Rightarrow> recipe list" where
  "contents h p = map (\<lambda>a. dict_objs h ! a) (list_objs h ! p)"

section \<open>load_recipes\<close>

text \<open>
  The files are an association list from path to what happens when the path is read.
  A path that is not listed has no file, and \<^verbatim>\<open>open\<close> raises \<^verbatim>\<open>FileNotFoundError\<close>. For a
  listed path either \<^verbatim>\<open>open\<close> raises (a directory, a path through a regular file, a
  file without read permission), or the file opens and \<^verbatim>\<open>json.load\<close> raises (text that
  is not JSON, bytes that are not valid in the encoding, an integer literal beyond the
  conversion limit), or \<^verbatim>\<open>json.load\<close> returns the decoded document. \<^verbatim>\<open>st.error\<close> is the list
  of messages shown.
\<close>

datatype loaded = LoadRaises error | Document pyval

datatype entry = OpenRaises error | Opens loaded

type_synonym files = "(string \<times> entry) list"

text \<open>The two statements under \<^verbatim>\<open>with\<close>: \<^verbatim>\<open>open(file_path, 'r')\<close>, then \<^verbatim>\<open>json.load(file)\<close>.\<close>

definition read_json :: "files \<Rightarrow> string \<Rightarrow> error + pyval" where
  "read_json fs file_path =
     (case map_of fs file_path of
        None \<Rightarrow> Inl FileNotFoundError
      | Some (OpenRaises e) \<Rightarrow> Inl e
      | Some (Opens (LoadRaises e)) \<Rightarrow> Inl e
      | Some (Opens (Document data)) \<Rightarrow> Inr data)"

text \<open>\<^verbatim>\<open>data['recipes']\<close>: only a dict can be indexed by a string.\<close>

definition subscript :: "pyval \<Rightarrow> string \<Rightarrow> error + pyval" where
  "subscript data key = (case data of VDict items \<Rightarrow> getitem items key | _ \<Rightarrow> Inl TypeError)"

text \<open>
  The \<^verbatim>\<open>try\<close> body is the read and \<^verbatim>\<open>data['recipes']\<close>. An exception is matched by
  class: the first handler takes \<^verbatim>\<open>FileNotFoundError\<close>, the second
  \<^verbatim>\<open>json.JSONDecodeError\<close>, neither of which has a subclass among the others; any other
  exception leaves the function.
\<close>

definition load_recipes :: "files \<Rightarrow> string \<Rightarrow> string list \<times> (error + pyval)" where
  "load_recipes fs file_path =
     (case (case read_json fs file_path of
              Inl e \<Rightarrow> Inl e
            | Inr data \<Rightarrow> subscript data ''recipes'') of
        Inr recipes \<Rightarrow> ([], Inr recipes)
      | Inl e \<Rightarrow>
          if e = FileNotFoundError
          then ([''Recipe file not found: '' @ file_path], Inr (VList []))
          else if e = JSONDecodeError
          then ([''Error decoding recipe file. Please check the JSON format.''],
                Inr (VList []))
          else ([], Inl e))"

section \<open>The random pick of main\<close>

text \<open>
  \<^verbatim>\<open>random.choice(seq)\<close> raises \<^verbatim>\<open>IndexError\<close> on an empty sequence and otherwise returns
  \<^verbatim>\<open>seq[k]\<close> for the index \<open>k\<close> that the generator draws below \<^verbatim>\<open>len(seq)\<close>. The draw is
  the first argument.
\<close>

definition choice :: "nat \<Rightarrow> 'a list \<Rightarrow> error + 'a" where
  "choice k seq =
     (if length seq = 0 then Inl IndexError
      else if k < length seq then Inr (seq ! k) else Inl IndexError)"

text \<open>
  The handler of the button (the body of \<^verbatim>\<open>if st.button(...)\<close>): an error box when
  nothing matches, and otherwise \<^verbatim>\<open>display_recipe\<close> on the chosen recipe. The rendering
  itself is not modelled.
\<close>

datatype action = ShowError string | DisplayRecipe recipe

definition surprise_me :: "nat \<Rightarrow> recipe list \<Rightarrow> error + action" where
  "surprise_me k filtered_recipes =
     (if filtered_recipes = []
      then Inr (ShowError ''No recipes match your criteria. Try adjusting the filters!'')
      else (case choice k filtered_recipes of
              Inl e \<Rightarrow> Inl e
            | Inr selected_recipe \<Rightarrow> Inr (DisplayRecipe selected_recipe)))"

text \<open>
  With a draw that is uniform on \<open>0..<n\<close>, the probability of an event is the share of
  the \<open>n\<close> draws on which it happens. \<^verbatim>\<open>enumerate\<close> tags each element with its position.
\<close>

definition probability :: "nat \<Rightarrow> (nat \<Rightarrow> bool) \<Rightarrow> real" where
  "probability n event = real (length (filter event [0..<n])) / real n"

definition enumerate_list :: "'a list \<Rightarrow> (nat \<times> 'a) list" where
  "enumerate_list seq = zip [0..<length seq] seq"

section \<open>An example catalogue\<close>

definition carbonara :: recipe where
  "carbonara =
     [(''name'', VStr ''Carbonara''), (''cuisine'', VStr ''Italian''), (''cost'', VStr ''$$''),
      (''cooking_time'', VInt 30)]"

definition tacos :: recipe where
  "tacos =
     [(''name'', VStr ''Tacos''), (''cuisine'', VStr ''Mexican''), (''cost'', VStr ''$''),
      (''cooking_time'', VInt 20)]"

definition risotto :: recipe where
  "risotto =
     [(''name'', VStr ''Risotto''), (''cuisine'', VStr ''Italian''), (''cost'', VStr ''$$''),
      (''cooking_time'', VInt 45)]"

definition catalogue :: "recipe list" where
  "catalogue = [carbonara, tacos, risotto]"

definition example_store :: store where
  "example_store = \<lparr>list_objs = [[0, 1, 2]], dict_objs = catalogue\<rparr>"

definition example_store_after :: store where
  "example_store_after =
     \<lparr>list_objs = [[0, 1, 2], [0, 2], [0]], dict_objs = catalogue\<rparr>"

section \<open>Comprehensions and filters\<close>

lemma comprehension_filter:
  "comprehension cond rs = Inr kept \<Longrightarrow> kept = filter (\<lambda>r. cond r = Inr True) rs"
  by (induction rs arbitrary: kept) (auto split: sum.splits if_splits)

lemma comprehension_total:
  "list_all (\<lambda>r. cond r = Inr (P r)) rs \<Longrightarrow> comprehension cond rs = Inr (filter P rs)"
  by (induction rs) auto

lemma cost_cond_wf: "well_formed r \<Longrightarrow> cost_cond c r = Inr (has_cost c r)"
  by (auto simp: well_formed_def is_str_def cost_cond_def getitem_def has_cost_def
      split: option.splits pyval.splits)

lemma cuisine_cond_wf: "well_formed r \<Longrightarrow> cuisine_cond c r = Inr (has_cuisine c r)"
  by (auto simp: well_formed_def is_str_def cuisine_cond_def getitem_def has_cuisine_def
      split: option.splits pyval.splits)

lemma time_cond_wf: "well_formed r \<Longrightarrow> time_cond t r = Inr (within_time t r)"
  by (auto simp: well_formed_def is_int_def time_cond_def getitem_def within_time_def
      split: option.splits pyval.splits)

lemma str_criterion_fun:
  "str_criterion P None = (\<lambda>r. True)"
  "s \<noteq> [] \<Longrightarrow> str_criterion P (Some s) = P s"
  "str_criterion P (Some []) = (\<lambda>r. True)"
  by (simp_all add: fun_eq_iff)

lemma int_criterion_fun:
  "int_criterion P None = (\<lambda>r. True)"
  "n \<noteq> 0 \<Longrightarrow> int_criterion P (Some n) = P n"
  "int_criterion P (Some 0) = (\<lambda>r. True)"
  by (simp_all add: fun_eq_iff)

lemma filter_recipes_selected:
  assumes "list_all well_formed rs"
  shows "filter_recipes rs cost cuisine max_time = Inr (filter (selected cost cuisine max_time) rs)"
proof -
  have wf: "list_all well_formed (filter P rs)" for P
    using assms by (simp add: list_all_iff)
  have c1: "comprehension (cost_cond c) xs = Inr (filter (has_cost c) xs)"
    if "list_all well_formed xs" for c xs
    using that by (intro comprehension_total) (simp add: list_all_iff cost_cond_wf)
  have c2: "comprehension (cuisine_cond c) xs = Inr (filter (has_cuisine c) xs)"
    if "list_all well_formed xs" for c xs
    using that by (intro comprehension_total) (simp add: list_all_iff cuisine_cond_wf)
  have c3: "comprehension (time_cond t) xs = Inr (filter (within_time t) xs)"
    if "list_all well_formed xs" for t xs
    using that by (intro comprehension_total) (simp add: list_all_iff time_cond_wf)
  have s1: "if_str cost (\<lambda>c. comprehension (cost_cond c)) rs
              = Inr (filter (str_criterion has_cost cost) rs)"
    by (cases cost) (auto simp: c1 assms str_criterion_fun)
  have s2: "if_str cuisine (\<lambda>c. comprehension (cuisine_cond c)) xs
              = Inr (filter (str_criterion has_cuisine cuisine) xs)"
    if "list_all well_formed xs" for xs
    by (cases cuisine) (auto simp: c2 that str_criterion_fun)
  have s3: "if_int max_time (\<lambda>t. comprehension (time_cond t)) xs
              = Inr (filter (int_criterion within_time max_time) xs)"
    if "list_all well_formed xs" for xs
    by (cases max_time) (auto simp: c3 that int_criterion_fun)
  have "filter_recipes rs cost cuisine max_time =
          Inr (filter (int_criterion within_time max_time)
                (filter (str_criterion has_cuisine cuisine)
                  (filter (str_criterion has_cost cost) rs)))"
    by (simp add: filter_recipes_def s1 s2 s3 wf)
  also have "\<dots> = Inr (filter (selected cost cuisine max_time) rs)"
    by (auto simp: selected_def intro!: filter_cong)
  finally show ?thesis .
qed


lemma comprehension_subseq: "comprehension cond rs = Inr kept \<Longrightarrow> subseq kept rs"
  by (drule comprehension_filter) simp

lemma if_str_subseq:
  "if_str crit (\<lambda>c. comprehension (cond c)) rs = Inr kept \<Longrightarrow> subseq kept rs"
  by (cases crit) (auto dest: comprehension_subseq split: if_splits)

lemma if_int_subseq:
  "if_int crit (\<lambda>c. comprehension (cond c)) rs = Inr kept \<Longrightarrow> subseq kept rs"
  by (cases crit) (auto dest: comprehension_subseq split: if_splits)

lemma filter_recipes_subseq_any:
  assumes "filter_recipes rs cost cuisine max_time = Inr out"
  shows "subseq out rs"
proof -
  from assms obtain a b where
    a: "if_str cost (\<lambda>c. comprehension (cost_cond c)) rs = Inr a" and
    b: "if_str cuisine (\<lambda>c. comprehension (cuisine_cond c)) a = Inr b" and
    c: "if_int max_time (\<lambda>t. comprehension (time_cond t)) b = Inr out"
    by (auto simp: filter_recipes_def split: sum.splits)
  have "subseq out b" using c by (rule if_int_subseq)
  also have "subseq b a" using b by (rule if_str_subseq)
  also have "subseq a rs" using a by (rule if_str_subseq)
  finally show ?thesis .
qed

lemma well_formed_catalogue: "list_all well_formed catalogue"
  by (simp add: catalogue_def carbonara_def tacos_def risotto_def well_formed_def
      is_str_def is_int_def)

lemma filter_catalogue_all_three:
  "filter_recipes catalogue (Some ''$$'') (Some ''ITALIAN'') (Some 30) = Inr [carbonara]"
  by code_simp

lemma filter_catalogue_cuisine:
  "filter_recipes catalogue None (Some ''italian'') None = Inr [carbonara, risotto]"
  by code_simp


lemma filter_catalogue_cheap:
  "filter_recipes catalogue (Some ''$'') None None = Inr [tacos]"
  by code_simp

section \<open>Claims about filter_recipes\<close>

text \<open>
  C6: for every list of well-formed recipes and every cost tier (\<open>$\<close>, \<open>$$\<close>, \<open>$$$\<close>),
  whatever the other two criteria are, \<open>filter_recipes\<close> returns a list, and every
  recipe in it has exactly that tier as its \<open>cost\<close>.
\<close>

theorem filter_recipes_cost_only:
  assumes "list_all well_formed rs" and "tier \<in> set cost_tiers"
  shows "\<exists>out. filter_recipes rs (Some tier) cuisine max_time = Inr out
           \<and> list_all (has_cost tier) out"
proof -
  from assms(2) have "tier \<noteq> []"
    by (auto simp: cost_tiers_def)
  then have "selected (Some tier) cuisine max_time r \<Longrightarrow> has_cost tier r" for r
    by (simp add: selected_def)
  then have "list_all (has_cost tier) (filter (selected (Some tier) cuisine max_time) rs)"
    by (simp add: list_all_iff)
  with filter_recipes_selected [OF assms(1)] show ?thesis
    by simp
qed

theorem filter_recipes_cost_only_witness:
  "list_all well_formed catalogue \<and> ''$'' \<in> set cost_tiers
   \<and> filter_recipes catalogue (Some ''$'') None None = Inr [tacos]
   \<and> list_all (has_cost ''$'') [tacos]"
proof -
  have tier: "''$'' \<in> set cost_tiers"
    by (simp add: cost_tiers_def)
  from filter_recipes_cost_only [OF well_formed_catalogue tier, of None None]
  have "list_all (has_cost ''$'') [tacos]"
    by (simp add: filter_catalogue_cheap)
  with well_formed_catalogue tier filter_catalogue_cheap show ?thesis
    by simp
qed

text \<open>
  C7: for every list of well-formed recipes and every combination of the three
  criteria, the call with all of them and the three calls with one of them each all
  return, and the combined result holds exactly the recipes that are in all three
  single results: as sets it is their intersection, and as a list it is the input
  restricted to that intersection.
\<close>

theorem filter_recipes_intersection:
  assumes "list_all well_formed rs"
  shows "\<exists>out a b c.
           filter_recipes rs cost cuisine max_time = Inr out
         \<and> filter_recipes rs cost None None = Inr a
         \<and> filter_recipes rs None cuisine None = Inr b
         \<and> filter_recipes rs None None max_time = Inr c
         \<and> set out = set a \<inter> set b \<inter> set c
         \<and> out = filter (\<lambda>r. r \<in> set a \<and> r \<in> set b \<and> r \<in> set c) rs"
proof -
  let ?out = "filter (selected cost cuisine max_time) rs"
  let ?a = "filter (selected cost None None) rs"
  let ?b = "filter (selected None cuisine None) rs"
  let ?c = "filter (selected None None max_time) rs"
  have split: "selected cost cuisine max_time r \<longleftrightarrow>
      selected cost None None r \<and> selected None cuisine None r \<and> selected None None max_time r"
    for r
    by (simp add: selected_def)
  have sets: "set ?out = set ?a \<inter> set ?b \<inter> set ?c"
    using split by auto
  have lists: "?out = filter (\<lambda>r. r \<in> set ?a \<and> r \<in> set ?b \<and> r \<in> set ?c) rs"
    using split by (auto intro!: filter_cong)
  show ?thesis
    using sets lists by (simp only: filter_recipes_selected [OF assms]) blast
qed

theorem filter_recipes_intersection_witness:
  "list_all well_formed catalogue
   \<and> filter_recipes catalogue (Some ''$$'') (Some ''ITALIAN'') (Some 30) = Inr [carbonara]
   \<and> filter_recipes catalogue (Some ''$$'') None None = Inr [carbonara, risotto]
   \<and> filter_recipes catalogue None (Some ''ITALIAN'') None = Inr [carbonara, risotto]
   \<and> filter_recipes catalogue None None (Some 30) = Inr [carbonara, tacos]
   \<and> set [carbonara] = set [carbonara, risotto] \<inter> set [carbonara, risotto]
                         \<inter> set [carbonara, tacos]"
proof -
  have all3: "filter_recipes catalogue (Some ''$$'') (Some ''ITALIAN'') (Some 30) = Inr [carbonara]"
    by code_simp
  have a: "filter_recipes catalogue (Some ''$$'') None None = Inr [carbonara, risotto]"
    by code_simp
  have b: "filter_recipes catalogue None (Some ''ITALIAN'') None = Inr [carbonara, risotto]"
    by code_simp
  have c: "filter_recipes catalogue None None (Some 30) = Inr [carbonara, tacos]"
    by code_simp
  from filter_recipes_intersection
         [OF well_formed_catalogue, of "Some ''$$''" "Some ''ITALIAN''" "Some 30"]
  have "set [carbonara] = set [carbonara, risotto] \<inter> set [carbonara, risotto]
                           \<inter> set [carbonara, tacos]"
    unfolding all3 a b c by blast
  with well_formed_catalogue all3 a b c show ?thesis
    by blast
qed

text \<open>
  C8: for every list of well-formed recipes and every combination of criteria,
  \<open>filter_recipes\<close> returns a subsequence of its input: the recipes it keeps, in the
  order of the input, none repeated or moved.
\<close>

theorem filter_recipes_subseq:
  assumes "list_all well_formed rs"
  shows "\<exists>out. filter_recipes rs cost cuisine max_time = Inr out \<and> subseq out rs"
  by (simp add: filter_recipes_selected [OF assms])

theorem filter_recipes_subseq_witness:
  "list_all well_formed catalogue
   \<and> filter_recipes catalogue None None (Some 30) = Inr [carbonara, tacos]
   \<and> subseq [carbonara, tacos] catalogue"
proof -
  have run: "filter_recipes catalogue None None (Some 30) = Inr [carbonara, tacos]"
    by code_simp
  from filter_recipes_subseq [OF well_formed_catalogue, of None None "Some 30"]
  have "subseq [carbonara, tacos] catalogue"
    by (simp add: run)
  with well_formed_catalogue run show ?thesis
    by simp
qed


section \<open>Claims about the random pick\<close>

text \<open>
  C1: for every non-empty recipe list and every draw below its length,
  \<open>random.choice\<close> returns a recipe, that recipe is an element of the list, and it is
  the one the button handler passes to \<open>display_recipe\<close>.
\<close>

theorem choice_member:
  assumes "filtered \<noteq> []" and "k < length filtered"
  shows "\<exists>r. choice k filtered = Inr r \<and> r \<in> set filtered
           \<and> surprise_me k filtered = Inr (DisplayRecipe r)"
  using assms by (simp add: choice_def surprise_me_def)

theorem choice_member_witness:
  "catalogue \<noteq> [] \<and> 1 < length catalogue \<and> choice 1 catalogue = Inr tacos
   \<and> tacos \<in> set catalogue \<and> surprise_me 1 catalogue = Inr (DisplayRecipe tacos)"
proof -
  have ne: "catalogue \<noteq> []" and len: "1 < length catalogue"
    by (simp_all add: catalogue_def)
  have pick: "choice 1 catalogue = Inr tacos"
    by (simp add: choice_def catalogue_def)
  from choice_member [OF ne len] pick
  have "tacos \<in> set catalogue \<and> surprise_me 1 catalogue = Inr (DisplayRecipe tacos)"
    by auto
  with ne len pick show ?thesis
    by simp
qed

text \<open>
  C4: when the filtered list is empty, the button handler, whatever the draw, ends
  normally (no exception) with the error box
  "No recipes match your criteria. Try adjusting the filters!" and displays no recipe.
\<close>

theorem surprise_me_empty:
  "surprise_me k [] =
     Inr (ShowError ''No recipes match your criteria. Try adjusting the filters!'')"
  by (simp add: surprise_me_def)

lemma choice_enumerate:
  "k < length seq \<Longrightarrow> choice k (enumerate_list seq) = Inr (k, seq ! k)"
  by (auto simp: choice_def enumerate_list_def)

lemma filter_is_index: "i < n \<Longrightarrow> filter (\<lambda>k. k = i) [0..<n] = [i]"
  by (induction n) (auto simp: less_Suc_eq)

text \<open>
  C9: for every non-empty list of \<open>n\<close> elements and every index \<open>i < n\<close>, the draw \<open>i\<close>
  makes \<open>random.choice\<close> return the \<open>i\<close>-th element, and under a draw that is uniform on
  \<open>0..<n\<close> the probability that the element at position \<open>i\<close> is the one returned is
  \<open>1 / n\<close>.
\<close>

theorem choice_uniform:
  assumes "seq \<noteq> []" and "i < length seq"
  shows "choice i seq = Inr (seq ! i)
       \<and> probability (length seq) (\<lambda>k. choice k (enumerate_list seq) = Inr (i, seq ! i))
           = 1 / real (length seq)"
proof -
  have "filter (\<lambda>k. choice k (enumerate_list seq) = Inr (i, seq ! i)) [0..<length seq]
          = filter (\<lambda>k. k = i) [0..<length seq]"
    by (rule filter_cong) (auto simp: choice_enumerate)
  also have "\<dots> = [i]"
    using assms(2) by (rule filter_is_index)
  finally have "probability (length seq)
      (\<lambda>k. choice k (enumerate_list seq) = Inr (i, seq ! i)) = 1 / real (length seq)"
    by (simp add: probability_def)
  with assms show ?thesis
    by (simp add: choice_def)
qed

theorem choice_uniform_witness:
  "catalogue \<noteq> [] \<and> 2 < length catalogue \<and> choice 2 catalogue = Inr risotto
   \<and> probability 3 (\<lambda>k. choice k (enumerate_list catalogue) = Inr (2, risotto)) = 1 / 3"
proof -
  have ne: "catalogue \<noteq> []" and len: "2 < length catalogue"
    by (simp_all add: catalogue_def)
  have n: "length catalogue = 3" and at: "catalogue ! 2 = risotto"
    by (simp_all add: catalogue_def)
  from choice_uniform [OF ne len]
  have "choice 2 catalogue = Inr risotto
      \<and> probability 3 (\<lambda>k. choice k (enumerate_list catalogue) = Inr (2, risotto)) = 1 / 3"
    by (simp add: n at)
  with ne len show ?thesis
    by simp
qed

section \<open>Claims about load_recipes\<close>

lemma load_recipes_entry:
  assumes "map_of fs file_path = Some (Opens (Document (VDict items)))"
    and "map_of items ''recipes'' = Some recipes"
  shows "load_recipes fs file_path = ([], Inr recipes)"
  using assms by (simp add: load_recipes_def read_json_def subscript_def getitem_def)

text \<open>
  The two failures that have a handler: when reading the path raises
  \<open>FileNotFoundError\<close> or \<open>JSONDecodeError\<close>, \<open>load_recipes\<close> reports exactly one error
  message and returns the empty list, raising nothing.
\<close>

lemma load_recipes_handled:
  assumes "read_json fs file_path = Inl FileNotFoundError
         \<or> read_json fs file_path = Inl JSONDecodeError"
  shows "\<exists>message. load_recipes fs file_path = ([message], Inr (VList []))"
  using assms by (auto simp: load_recipes_def)

lemma load_recipes_missing:
  "load_recipes [] ''recipes.json'' =
     ([''Recipe file not found: recipes.json''], Inr (VList []))"
  by (simp add: load_recipes_def read_json_def)

lemma load_recipes_not_json:
  "load_recipes [(''recipes.json'', Opens (LoadRaises JSONDecodeError))] ''recipes.json'' =
     ([''Error decoding recipe file. Please check the JSON format.''], Inr (VList []))"
  by (simp add: load_recipes_def read_json_def)

text \<open>
  Every other exception of the \<open>try\<close> body reaches the caller, with nothing reported:
  whatever \<open>open\<close> or \<open>json.load\<close> raises besides the two, and what \<open>data['recipes']\<close>
  raises.
\<close>

lemma load_recipes_propagates:
  assumes "read_json fs file_path = Inl e"
    and "e \<noteq> FileNotFoundError" and "e \<noteq> JSONDecodeError"
  shows "load_recipes fs file_path = ([], Inl e)"
  using assms by (simp add: load_recipes_def)

lemma load_recipes_through_a_file:
  "load_recipes [(''cat.json'', Opens (Document (VDict []))),
                 (''cat.json/x'', OpenRaises NotADirectoryError)] ''cat.json/x'' =
     ([], Inl NotADirectoryError)"
  by (simp add: load_recipes_def read_json_def)

lemma load_recipes_bad_encoding:
  "load_recipes [(''recipes.json'', Opens (LoadRaises UnicodeDecodeError))] ''recipes.json'' =
     ([], Inl UnicodeDecodeError)"
  by (simp add: load_recipes_def read_json_def)

lemma load_recipes_not_an_object:
  "load_recipes [(''recipes.json'', Opens (Document (VList [])))] ''recipes.json'' =
     ([], Inl TypeError)"
  by (simp add: load_recipes_def read_json_def subscript_def)

text \<open>
  C3: the source is ill-formed and yet the exception reaches the caller. A file that
  holds the JSON document \<open>{}\<close> has no \<open>recipes\<close> entry; neither handler catches the
  \<open>KeyError\<close> of \<open>data['recipes']\<close>, so nothing is reported and no empty list is returned,
  unlike what the two handlers do for a missing or an undecodable file.
\<close>

theorem load_recipes_no_entry:
  "load_recipes [(''recipes.json'', Opens (Document (VDict [])))] ''recipes.json'' =
     ([], Inl KeyError)"
  by (simp add: load_recipes_def read_json_def subscript_def getitem_def)

section \<open>The truthiness tests\<close>

lemma filter_recipes_max_time:
  assumes "list_all well_formed rs" and "t \<noteq> 0"
  shows "filter_recipes rs None None (Some t) = Inr (filter (within_time t) rs)"
  using assms(2)
  by (auto simp: filter_recipes_selected [OF assms(1)] selected_def intro!: filter_cong)

lemma filter_recipes_cuisine:
  assumes "list_all well_formed rs" and "c \<noteq> []"
  shows "filter_recipes rs None (Some c) None = Inr (filter (has_cuisine c) rs)"
  using assms(2)
  by (auto simp: filter_recipes_selected [OF assms(1)] selected_def intro!: filter_cong)

lemma lower_char_idem: "lower_char (lower_char c) = lower_char c"
  by (cases c) (auto simp: lower_char_def Let_def)

lemma lower_idem: "lower (lower s) = lower s"
  by (simp add: lower_def lower_char_idem)

lemma has_cuisine_lower: "has_cuisine (lower c) r = has_cuisine c r"
  by (simp add: has_cuisine_def lower_idem split: option.splits pyval.splits)

text \<open>
  C2: a supplied threshold of 0 is skipped by \<open>if max_time:\<close>. No recipe of the
  catalogue cooks in 0 minutes or less, and yet all of them are returned.
\<close>

theorem filter_recipes_max_time_zero:
  "filter_recipes catalogue None None (Some 0) = Inr catalogue
   \<and> filter (within_time 0) catalogue = []"
  by code_simp

text \<open>
  C5: a supplied cuisine that is the empty string is skipped by \<open>if cuisine:\<close>. No
  recipe of the catalogue has the empty cuisine, and yet all of them are returned.
\<close>

theorem filter_recipes_cuisine_empty:
  "filter_recipes catalogue None (Some '''') None = Inr catalogue
   \<and> filter (has_cuisine '''') catalogue = []"
  by code_simp

section \<open>The store is only extended\<close>

lemma comprehension_map:
  "comprehension cond (map f xs) =
     (case comprehension (\<lambda>a. cond (f a)) xs of
        Inl e \<Rightarrow> Inl e
      | Inr kept \<Rightarrow> Inr (map f kept))"
  by (induction xs) (auto split: sum.splits)

lemma prefix_nth: "prefix xs ys \<Longrightarrow> i < length xs \<Longrightarrow> ys ! i = xs ! i"
  by (auto simp: prefix_def nth_append)

lemma extends_refl: "extends h h"
  by (simp add: extends_def)

lemma extends_trans: "extends h h1 \<Longrightarrow> extends h1 h2 \<Longrightarrow> extends h h2"
  by (auto simp: extends_def)

lemma extends_contents:
  "extends h h' \<Longrightarrow> p < length (list_objs h) \<Longrightarrow> contents h' p = contents h p"
  using prefix_nth [of "list_objs h" "list_objs h'" p] by (simp add: extends_def contents_def)

lemma comprehension_h_extends: "extends h (fst (comprehension_h cond h p))"
  by (auto simp: comprehension_h_def new_list_def extends_def split: sum.splits)

lemma if_str_h_extends:
  "extends h (fst (if_str_h crit (\<lambda>c. comprehension_h (cond c)) h p))"
  by (cases crit) (simp_all add: comprehension_h_extends extends_refl)

lemma if_int_h_extends:
  "extends h (fst (if_int_h crit (\<lambda>c. comprehension_h (cond c)) h p))"
  by (cases crit) (simp_all add: comprehension_h_extends extends_refl)

lemma filter_recipes_h_extends:
  "extends h (fst (filter_recipes_h h recipes cost cuisine max_time))"
proof -
  obtain h1 r1 where s1: "if_str_h cost (\<lambda>c. comprehension_h (cost_cond c)) h recipes = (h1, r1)"
    by (cases "if_str_h cost (\<lambda>c. comprehension_h (cost_cond c)) h recipes")
  have e1: "extends h h1"
    using if_str_h_extends [of h cost cost_cond recipes] by (simp add: s1)
  show ?thesis
  proof (cases r1)
    case (Inl e)
    then show ?thesis
      using e1 by (simp add: filter_recipes_h_def s1)
  next
    case (Inr by_cost)
    obtain h2 r2 where
      s2: "if_str_h cuisine (\<lambda>c. comprehension_h (cuisine_cond c)) h1 by_cost = (h2, r2)"
      by (cases "if_str_h cuisine (\<lambda>c. comprehension_h (cuisine_cond c)) h1 by_cost")
    have e2: "extends h1 h2"
      using if_str_h_extends [of h1 cuisine cuisine_cond by_cost] by (simp add: s2)
    show ?thesis
    proof (cases r2)
      case (Inl e)
      then show ?thesis
        using e1 e2 \<open>r1 = Inr by_cost\<close>
        by (auto simp: filter_recipes_h_def s1 s2 intro: extends_trans)
    next
      case (Inr by_cuisine)
      have e3: "extends h2
          (fst (if_int_h max_time (\<lambda>t. comprehension_h (time_cond t)) h2 by_cuisine))"
        by (rule if_int_h_extends)
      then show ?thesis
        using e1 e2 Inr \<open>r1 = Inr by_cost\<close>
        by (auto simp: filter_recipes_h_def s1 s2 intro: extends_trans)
    qed
  qed
qed


lemma comprehension_h_refines:
  assumes "comprehension_h cond h p = (h', r)"
  shows "case r of
           Inl e \<Rightarrow> comprehension cond (contents h p) = Inl e
         | Inr q \<Rightarrow> q < length (list_objs h')
                    \<and> comprehension cond (contents h p) = Inr (contents h' q)"
  using assms
  by (auto simp: comprehension_h_def new_list_def contents_def comprehension_map
      split: sum.splits)

lemma if_str_h_refines:
  assumes "if_str_h crit (\<lambda>c. comprehension_h (cond c)) h p = (h', r)"
    and "p < length (list_objs h)"
  shows "case r of
           Inl e \<Rightarrow> if_str crit (\<lambda>c. comprehension (cond c)) (contents h p) = Inl e
         | Inr q \<Rightarrow> q < length (list_objs h')
                    \<and> if_str crit (\<lambda>c. comprehension (cond c)) (contents h p)
                        = Inr (contents h' q)"
proof (cases crit)
  case None
  with assms show ?thesis by auto
next
  case (Some s)
  show ?thesis
  proof (cases "s = []")
    case True
    with Some assms show ?thesis by auto
  next
    case False
    with Some assms have "comprehension_h (cond s) h p = (h', r)" by simp
    from comprehension_h_refines [OF this] Some False show ?thesis
      by (cases r) auto
  qed
qed

lemma if_int_h_refines:
  assumes "if_int_h crit (\<lambda>c. comprehension_h (cond c)) h p = (h', r)"
    and "p < length (list_objs h)"
  shows "case r of
           Inl e \<Rightarrow> if_int crit (\<lambda>c. comprehension (cond c)) (contents h p) = Inl e
         | Inr q \<Rightarrow> q < length (list_objs h')
                    \<and> if_int crit (\<lambda>c. comprehension (cond c)) (contents h p)
                        = Inr (contents h' q)"
proof (cases crit)
  case None
  with assms show ?thesis by auto
next
  case (Some n)
  show ?thesis
  proof (cases "n = 0")
    case True
    with Some assms show ?thesis by auto
  next
    case False
    with Some assms have "comprehension_h (cond n) h p = (h', r)" by simp
    from comprehension_h_refines [OF this] Some False show ?thesis
      by (cases r) auto
  qed
qed

text \<open>
  The store version computes what \<open>filter_recipes\<close> computes on the recipes that the
  references stand for.
\<close>

lemma filter_recipes_h_refines:
  assumes run: "filter_recipes_h h recipes cost cuisine max_time = (h', r)"
    and live: "recipes < length (list_objs h)"
  shows "filter_recipes (contents h recipes) cost cuisine max_time =
           (case r of Inl e \<Rightarrow> Inl e | Inr q \<Rightarrow> Inr (contents h' q))"
proof -
  obtain h1 r1 where s1: "if_str_h cost (\<lambda>c. comprehension_h (cost_cond c)) h recipes = (h1, r1)"
    by (cases "if_str_h cost (\<lambda>c. comprehension_h (cost_cond c)) h recipes")
  note p1 = if_str_h_refines [OF s1 live]
  show ?thesis
  proof (cases r1)
    case (Inl e)
    with run s1 p1 show ?thesis
      by (auto simp: filter_recipes_h_def filter_recipes_def)
  next
    case r1: (Inr by_cost)
    obtain h2 r2 where
      s2: "if_str_h cuisine (\<lambda>c. comprehension_h (cuisine_cond c)) h1 by_cost = (h2, r2)"
      by (cases "if_str_h cuisine (\<lambda>c. comprehension_h (cuisine_cond c)) h1 by_cost")
    from p1 r1 have live1: "by_cost < length (list_objs h1)" by simp
    note p2 = if_str_h_refines [OF s2 live1]
    show ?thesis
    proof (cases r2)
      case (Inl e)
      with run s1 s2 p1 p2 r1 show ?thesis
        by (auto simp: filter_recipes_h_def filter_recipes_def)
    next
      case r2: (Inr by_cuisine)
      from run s1 s2 r1 r2 have
        s3: "if_int_h max_time (\<lambda>t. comprehension_h (time_cond t)) h2 by_cuisine = (h', r)"
        by (simp add: filter_recipes_h_def)
      from p2 r2 have live2: "by_cuisine < length (list_objs h2)" by simp
      note p3 = if_int_h_refines [OF s3 live2]
      from p1 p2 p3 r1 r2 show ?thesis
        by (cases r) (simp_all add: filter_recipes_def)
    qed
  qed
qed

text \<open>
  With no criterion applied the result is the input list object itself; a
  comprehension returns a list object that did not exist before.
\<close>

lemma filter_recipes_h_no_criteria:
  "filter_recipes_h h recipes None None None = (h, Inr recipes)"
  by (simp add: filter_recipes_h_def)

lemma comprehension_h_fresh:
  "comprehension_h cond h p = (h', Inr q) \<Longrightarrow> q = length (list_objs h)"
  by (auto simp: comprehension_h_def new_list_def split: sum.splits)

lemma filter_example_store:
  "filter_recipes_h example_store 0 (Some ''$$'') None (Some 30) = (example_store_after, Inr 2)"
  by code_simp

text \<open>
  C10: for every store, every live list of recipes in it and every combination of
  criteria, after \<open>filter_recipes\<close> (whether it returns or raises) every recipe object
  is unchanged, every list object that existed before is unchanged, and so the input
  list still holds the same references and stands for the same recipes.
\<close>

theorem filter_recipes_h_frame:
  assumes "filter_recipes_h h recipes cost cuisine max_time = (h', result)"
    and "recipes < length (list_objs h)"
  shows "dict_objs h' = dict_objs h \<and> prefix (list_objs h) (list_objs h')
       \<and> list_objs h' ! recipes = list_objs h ! recipes
       \<and> contents h' recipes = contents h recipes"
proof -
  from filter_recipes_h_extends [of h recipes cost cuisine max_time] assms(1)
  have ext: "extends h h'"
    by simp
  then have "list_objs h' ! recipes = list_objs h ! recipes"
    using assms(2) by (simp add: extends_def prefix_nth)
  with ext extends_contents [OF ext assms(2)] show ?thesis
    by (simp add: extends_def)
qed

theorem filter_recipes_h_frame_witness:
  "filter_recipes_h example_store 0 (Some ''$$'') None (Some 30) = (example_store_after, Inr 2)
   \<and> 0 < length (list_objs example_store)
   \<and> dict_objs example_store_after = dict_objs example_store
   \<and> prefix (list_objs example_store) (list_objs example_store_after)
   \<and> list_objs example_store_after ! 0 = list_objs example_store ! 0
   \<and> contents example_store_after 0 = contents example_store 0"
proof -
  have live: "0 < length (list_objs example_store)"
    by (simp add: example_store_def)
  from filter_recipes_h_frame [OF filter_example_store live] filter_example_store live
  show ?thesis
    by blast
qed

end
